theory Spec2Isabelle
  imports Complex_Main
begin

section \<open>JavaScript values used by the providers and the schema factory\<close>

subsection \<open>Strings\<close>

text \<open>
  A string that the code measures or compares (an input, a currency code) is the list of
  its code units, over any type \<open>'c\<close> of code units, and \<open>s.length\<close> is the length of the
  list. \<open>String.prototype.toUpperCase\<close> is the case mapping of the engine; it is not part
  of the package and is a parameter \<open>toUpperCase\<close> of the schema factory. Text that is only
  put together and shown (a provider name, a message) is a \<open>string\<close>.

  The theorems hold for every case mapping. The examples and witnesses need one to
  evaluate: \<open>toUpperCaseLatin\<close> agrees with \<open>String.prototype.toUpperCase\<close> on the strings
  made of ASCII code units, the sharp s (code unit DF, uppercased to SS) and the e with
  acute accent (code unit E9, uppercased to C9), which are the strings the examples use;
  on the other code units it is the identity.
\<close>

definition lowerLetters :: string where
  "lowerLetters = ''abcdefghijklmnopqrstuvwxyz''"

definition upperLetters :: string where
  "upperLetters = ''ABCDEFGHIJKLMNOPQRSTUVWXYZ''"

definition toUpperUnit :: "char \<Rightarrow> string" where
  "toUpperUnit c =
     (case map_of (zip lowerLetters upperLetters) c of
        Some u \<Rightarrow> [u]
      | None \<Rightarrow>
          if c = CHR 0xDF then ''SS''
          else if c = CHR 0xE9 then [CHR 0xC9]
          else [c])"

definition toUpperCaseLatin :: "string \<Rightarrow> string" where
  "toUpperCaseLatin s = concat (map toUpperUnit s)"

text \<open>\<open>Array.prototype.join\<close>.\<close>

fun join :: "string \<Rightarrow> string list \<Rightarrow> string" where
  "join sep [] = []"
| "join sep [x] = x"
| "join sep (x # y # ys) = x @ sep @ join sep (y # ys)"

subsection \<open>Numbers\<close>

text \<open>
  A JavaScript number is \<open>NaN\<close>, one of the two infinities, or a finite value, given by
  the real it stands for; the two zeros are one. Every comparison with \<open>NaN\<close> is false. The
  result of an arithmetic operation is the exact result rounded to binary64.
\<close>

datatype number = NaN | NegInfinity | PosInfinity | Finite real

fun num_le :: "number \<Rightarrow> number \<Rightarrow> bool" where
  "num_le NaN b = False"
| "num_le a NaN = False"
| "num_le NegInfinity b = True"
| "num_le a PosInfinity = True"
| "num_le PosInfinity b = False"
| "num_le a NegInfinity = False"
| "num_le (Finite x) (Finite y) = (x \<le> y)"

fun num_lt :: "number \<Rightarrow> number \<Rightarrow> bool" where
  "num_lt NaN b = False"
| "num_lt a NaN = False"
| "num_lt PosInfinity b = False"
| "num_lt a NegInfinity = False"
| "num_lt NegInfinity b = True"
| "num_lt a PosInfinity = True"
| "num_lt (Finite x) (Finite y) = (x < y)"

definition num_gt :: "number \<Rightarrow> number \<Rightarrow> bool" where
  "num_gt a b = num_lt b a"

text \<open>\<open>Number.isInteger\<close>.\<close>

fun Number_isInteger :: "number \<Rightarrow> bool" where
  "Number_isInteger (Finite x) = (of_int \<lfloor>x\<rfloor> = x)"
| "Number_isInteger a = False"

text \<open>
  The number value of a real: the nearest binary64 value, the one with the even significand
  when two are equally near, and an infinity from \<open>2^1024\<close> on. A binary64 value is a
  multiple \<open>k * 2^(e - 52)\<close> with \<open>k <= 2^53\<close>, where \<open>e\<close> is the exponent of the real and at
  least \<open>-1022\<close>.
\<close>

definition round_half_even :: "real \<Rightarrow> int" where
  "round_half_even m =
     (let f = \<lfloor>m\<rfloor>; d = m - of_int f
      in if d < 1 / 2 then f else if 1 / 2 < d then f + 1 else if even f then f else f + 1)"

definition binary64_exponent :: "real \<Rightarrow> int" where
  "binary64_exponent a = max \<lfloor>log 2 a\<rfloor> (- 1022)"

definition to_binary64 :: "real \<Rightarrow> number" where
  "to_binary64 x =
     (if x = 0 then Finite 0
      else
        (let a = \<bar>x\<bar>;
             q = 2 powi (binary64_exponent a - 52);
             r = of_int (round_half_even (a / q)) * q
         in if 2 powi 1024 \<le> r then (if 0 < x then PosInfinity else NegInfinity)
            else Finite (if 0 < x then r else - r)))"

text \<open>The product \<open>a * b\<close> of two numbers.\<close>

fun num_mul :: "number \<Rightarrow> number \<Rightarrow> number" where
  "num_mul NaN b = NaN"
| "num_mul a NaN = NaN"
| "num_mul (Finite x) (Finite y) = to_binary64 (x * y)"
| "num_mul (Finite x) PosInfinity =
     (if x = 0 then NaN else if 0 < x then PosInfinity else NegInfinity)"
| "num_mul (Finite x) NegInfinity =
     (if x = 0 then NaN else if 0 < x then NegInfinity else PosInfinity)"
| "num_mul PosInfinity (Finite y) =
     (if y = 0 then NaN else if 0 < y then PosInfinity else NegInfinity)"
| "num_mul NegInfinity (Finite y) =
     (if y = 0 then NaN else if 0 < y then NegInfinity else PosInfinity)"
| "num_mul PosInfinity PosInfinity = PosInfinity"
| "num_mul PosInfinity NegInfinity = NegInfinity"
| "num_mul NegInfinity PosInfinity = NegInfinity"
| "num_mul NegInfinity NegInfinity = PosInfinity"

text \<open>\<open>Math.floor\<close>.\<close>

fun Math_floor :: "number \<Rightarrow> number" where
  "Math_floor (Finite x) = Finite (of_int \<lfloor>x\<rfloor>)"
| "Math_floor a = a"

text \<open>
  \<open>Math.max(...xs)\<close>: the largest argument, \<open>-Infinity\<close> when there is none and
  \<open>NaN\<close> as soon as one argument is \<open>NaN\<close>.
\<close>

definition max2 :: "number \<Rightarrow> number \<Rightarrow> number" where
  "max2 a b = (if a = NaN \<or> b = NaN then NaN else if num_lt a b then b else a)"

definition Math_max :: "number list \<Rightarrow> number" where
  "Math_max xs = foldl max2 NegInfinity xs"

text \<open>The number \<open>s.length\<close> of a string or \<open>a.length\<close> of an array.\<close>

definition len :: "'a list \<Rightarrow> number" where
  "len xs = Finite (real (length xs))"

subsection \<open>Arrays and sets\<close>

text \<open>
  \<open>xs.slice(0, end)\<close>: the end index is truncated towards zero, \<open>NaN\<close> counts as 0, a
  negative index counts from the end of the array, and the result stops at the end of
  the array.
\<close>

definition slice0 :: "'a list \<Rightarrow> number \<Rightarrow> 'a list" where
  "slice0 xs endIndex =
     (case endIndex of
        NaN \<Rightarrow> []
      | NegInfinity \<Rightarrow> []
      | PosInfinity \<Rightarrow> xs
      | Finite x \<Rightarrow>
          (let k = (if x < 0 then \<lceil>x\<rceil> else \<lfloor>x\<rfloor>)
           in if k < 0 then take (nat (max (int (length xs) + k) 0)) xs
              else take (nat k) xs))"

text \<open>
  A JavaScript \<open>Set\<close> keeps its elements in insertion order and holds each of them once.
  It is modelled by the list of its elements in that order, which is also what
  \<open>Array.from\<close> and \<open>for ... of\<close> see; \<open>size\<close> is the length of the list.
\<close>

definition Set_has :: "'a list \<Rightarrow> 'a \<Rightarrow> bool" where
  "Set_has s x = (x \<in> set s)"

definition Set_add :: "'a list \<Rightarrow> 'a \<Rightarrow> 'a list" where
  "Set_add s x = (if x \<in> set s then s else s @ [x])"

definition Set_new :: "'a list \<Rightarrow> 'a list" where
  "Set_new xs = foldl Set_add [] xs"

subsection \<open>Thrown errors\<close>

datatype error = Error string

section \<open>Currency providers\<close>

text \<open>
  An object implementing the \<open>CurrencyProvider\<close> interface is one of the three classes
  of the package, with its private fields, or an implementation written by the caller,
  given by what its three methods return.
\<close>

datatype 'c provider =
    Fiat "'c list list" number
  | Crypto "'c list list" number
  | Multi "'c list list" number "'c provider list"
  | Custom "'c list list" number string

fun getValidCodes :: "'c provider \<Rightarrow> 'c list list" where
  "getValidCodes (Fiat validCodes maxLength) = Set_new validCodes"
| "getValidCodes (Crypto validCodes maxLength) = Set_new validCodes"
| "getValidCodes (Multi validCodes maxLength providers) = Set_new validCodes"
| "getValidCodes (Custom validCodes maxLength name) = Set_new validCodes"

fun getMaxLength :: "'c provider \<Rightarrow> number" where
  "getMaxLength (Fiat validCodes maxLength) = maxLength"
| "getMaxLength (Crypto validCodes maxLength) = maxLength"
| "getMaxLength (Multi validCodes maxLength providers) = maxLength"
| "getMaxLength (Custom validCodes maxLength name) = maxLength"

fun getName :: "'c provider \<Rightarrow> string" where
  "getName (Fiat validCodes maxLength) = ''Fiat Currency Provider''"
| "getName (Crypto validCodes maxLength) = ''Cryptocurrency Provider''"
| "getName (Multi validCodes maxLength providers) =
     ''Multi Currency Provider ('' @ join '', '' (map getName providers) @ '')''"
| "getName (Custom validCodes maxLength name) = name"

text \<open>\<open>Math.max(...Array.from(validCodes).map(code => code.length))\<close>.\<close>

definition maxCodeLength :: "'c list list \<Rightarrow> number" where
  "maxCodeLength validCodes = Math_max (map (\<lambda>code. len code) validCodes)"

subsection \<open>FiatCurrencyProvider\<close>

text \<open>The constructor, given the list \<open>currencyCodes.codes()\<close> of the external table.\<close>

definition FiatCurrencyProvider :: "'c list list \<Rightarrow> 'c provider" where
  "FiatCurrencyProvider codes =
     (let validCodes = Set_new codes
      in Fiat validCodes (maxCodeLength validCodes))"

subsection \<open>CryptocurrencyProvider\<close>

record crypto_options =
  opt_maxLength :: "number option"
  opt_percentage :: "number option"

text \<open>The constructor, given the external list \<open>cryptoSymbols\<close>.\<close>

definition CryptocurrencyProvider ::
  "'c list list \<Rightarrow> crypto_options \<Rightarrow> error + 'c provider" where
  "CryptocurrencyProvider cryptoSymbols options =
     (let maxLength = opt_maxLength options;
          percentage = opt_percentage options
      in if (case maxLength of None \<Rightarrow> False
             | Some l \<Rightarrow> num_le l (Finite 0) \<or> \<not> Number_isInteger l)
         then Inl (Error ''maxLength must be a positive integer'')
         else if (case percentage of None \<Rightarrow> False
                  | Some p \<Rightarrow> num_le p (Finite 0) \<or> num_gt p (Finite 1))
         then Inl (Error ''percentage must be a number between 0 and 1'')
         else if maxLength \<noteq> None \<and> percentage \<noteq> None
         then Inl (Error ''Cannot specify both maxLength and percentage'')
         else
           (let selectedCodes = Set_new cryptoSymbols;
                selectedCodes =
                  (case maxLength of None \<Rightarrow> selectedCodes
                   | Some l \<Rightarrow> Set_new (filter (\<lambda>code. num_le (len code) l) selectedCodes));
                selectedCodes =
                  (case percentage of None \<Rightarrow> selectedCodes
                   | Some p \<Rightarrow>
                       (let codesArray = selectedCodes;
                            count = Math_floor (num_mul (len codesArray) p)
                        in Set_new (slice0 codesArray count)))
            in Inr (Crypto selectedCodes (maxCodeLength selectedCodes))))"

subsection \<open>MultiCurrencyProvider\<close>

text \<open>The inner loop over the codes of one provider, and the outer loop over the providers.\<close>

fun addCodes :: "'c list list \<Rightarrow> 'c list list \<Rightarrow> 'c list list" where
  "addCodes validCodes [] = validCodes"
| "addCodes validCodes (code # providerCodes) =
     addCodes (if \<not> Set_has validCodes code then Set_add validCodes code else validCodes)
       providerCodes"

fun combineCodes :: "'c list list \<Rightarrow> 'c provider list \<Rightarrow> 'c list list" where
  "combineCodes validCodes [] = validCodes"
| "combineCodes validCodes (provider # providers) =
     combineCodes (addCodes validCodes (getValidCodes provider)) providers"

definition MultiCurrencyProvider :: "'c provider list \<Rightarrow> error + 'c provider" where
  "MultiCurrencyProvider providers =
     (if length providers = 0 then Inl (Error ''At least one provider must be specified'')
      else
        (let validCodes = combineCodes [] providers
         in Inr (Multi validCodes (maxCodeLength validCodes) providers)))"

section \<open>The schema factory\<close>

subsection \<open>String schemas of the validation library\<close>

text \<open>
  A message is a template literal: its pieces in order, an interpolated number kept as
  the number. A string schema is the list of its checks in the order they were attached
  and the transformation of an accepted input. Parsing runs every check, collects the
  issues in that order, and transforms the input only when there is no issue;
  \<open>issues[0]\<close> is the head of the list. A length check passes when its comparison,
  \<open>length >= n\<close> for \<open>min\<close> and \<open>length <= n\<close> for \<open>max\<close>, is true, so a bound of \<open>NaN\<close>
  passes no input.
\<close>

datatype piece = Str string | Num number

datatype issue_code = too_small | too_big | custom

datatype issue = Issue (code_of: issue_code) (message_of: "piece list")

record 'c schema =
  checks :: "('c list \<Rightarrow> issue option) list"
  transformation :: "'c list \<Rightarrow> 'c list"

definition z_string :: "'c schema" where
  "z_string = \<lparr>checks = [], transformation = (\<lambda>s. s)\<rparr>"

definition z_min :: "number \<Rightarrow> piece list \<Rightarrow> 'c schema \<Rightarrow> 'c schema" where
  "z_min n msg sch =
     sch\<lparr>checks := checks sch @
       [\<lambda>s. if num_le n (len s) then None else Some (Issue too_small msg)]\<rparr>"

definition z_max :: "number \<Rightarrow> piece list \<Rightarrow> 'c schema \<Rightarrow> 'c schema" where
  "z_max n msg sch =
     sch\<lparr>checks := checks sch @
       [\<lambda>s. if num_le (len s) n then None else Some (Issue too_big msg)]\<rparr>"

definition z_refine :: "('c list \<Rightarrow> bool) \<Rightarrow> piece list \<Rightarrow> 'c schema \<Rightarrow> 'c schema" where
  "z_refine ok msg sch =
     sch\<lparr>checks := checks sch @ [\<lambda>s. if ok s then None else Some (Issue custom msg)]\<rparr>"

definition z_transform :: "('c list \<Rightarrow> 'c list) \<Rightarrow> 'c schema \<Rightarrow> 'c schema" where
  "z_transform f sch = sch\<lparr>transformation := (\<lambda>s. f (transformation sch s))\<rparr>"

definition safeParse :: "'c schema \<Rightarrow> 'c list \<Rightarrow> issue list + 'c list" where
  "safeParse sch input =
     (let issues = concat (map (\<lambda>check. case check input of None \<Rightarrow> [] | Some i \<Rightarrow> [i])
                            (checks sch))
      in if issues = [] then Inr (transformation sch input) else Inl issues)"

subsection \<open>createCurrencySchema\<close>

datatype 'c provider_option = Single "'c provider" | Array "'c provider list"

record 'c currency_schema_options =
  opt_provider :: "'c provider_option option"
  opt_message :: "string option"

text \<open>
  The provider the schema is built from: the default fiat provider, the provider given,
  or the composite of the providers given.
\<close>

definition finalProvider ::
  "'c provider \<Rightarrow> 'c provider_option option \<Rightarrow> error + 'c provider" where
  "finalProvider fiatProvider provider =
     (case provider of
        Some (Array providers) \<Rightarrow> MultiCurrencyProvider providers
      | Some (Single p) \<Rightarrow> Inr p
      | None \<Rightarrow> Inr fiatProvider)"

text \<open>\<open>message || defaultMessage\<close>: the empty string is falsy.\<close>

definition messageOr :: "string option \<Rightarrow> piece list \<Rightarrow> piece list" where
  "messageOr message defaultMessage =
     (case message of
        None \<Rightarrow> defaultMessage
      | Some m \<Rightarrow> if m = [] then defaultMessage else [Str m])"

definition defaultMessage :: "'c provider \<Rightarrow> piece list" where
  "defaultMessage p =
     [Str (''Invalid currency code. Must be a valid currency code from '' @ getName p @ ''.'')]"

definition emptyMessage :: "piece list" where
  "emptyMessage = [Str ''Currency code cannot be empty'']"

definition exceedMessage :: "number \<Rightarrow> piece list" where
  "exceedMessage maxLength =
     [Str ''Currency code cannot exceed '', Num maxLength, Str '' characters'']"

text \<open>The schema built from the resolved provider, given the case mapping of the engine.\<close>

definition currencySchema ::
  "('c list \<Rightarrow> 'c list) \<Rightarrow> 'c provider \<Rightarrow> string option \<Rightarrow> 'c schema" where
  "currencySchema toUpperCase p message =
     (let validCodes = getValidCodes p;
          maxLength = getMaxLength p
      in z_transform (\<lambda>code. toUpperCase code)
           (z_refine (\<lambda>code. let upperCode = toUpperCase code in Set_has validCodes upperCode)
              (messageOr message (defaultMessage p))
              (z_max maxLength (exceedMessage maxLength)
                 (z_min (Finite 1) emptyMessage z_string))))"

definition createCurrencySchema ::
  "('c list \<Rightarrow> 'c list) \<Rightarrow> 'c provider \<Rightarrow> 'c currency_schema_options \<Rightarrow> error + 'c schema" where
  "createCurrencySchema toUpperCase fiatProvider options =
     (case finalProvider fiatProvider (opt_provider options) of
        Inl e \<Rightarrow> Inl e
      | Inr p \<Rightarrow> Inr (currencySchema toUpperCase p (opt_message options)))"

section \<open>Notions of the specification\<close>

text \<open>
  The true maximum code length of a code set: the largest length among its codes. For a
  set without codes the value is \<open>-Infinity\<close>, the maximum of no numbers.
\<close>

definition is_max_length :: "number \<Rightarrow> 'c list list \<Rightarrow> bool" where
  "is_max_length m codes =
     (if codes = [] then m = NegInfinity
      else m = Finite (real (Max (length ` set codes))))"

text \<open>A positive integer, and a number in the interval \<open>(0, 1]\<close>.\<close>

definition positiveInteger :: "number \<Rightarrow> bool" where
  "positiveInteger l = (case l of Finite x \<Rightarrow> 0 < x \<and> real_of_int \<lfloor>x\<rfloor> = x | _ \<Rightarrow> False)"

definition inUnitInterval :: "number \<Rightarrow> bool" where
  "inUnitInterval P = (case P of Finite x \<Rightarrow> 0 < x \<and> x \<le> 1 | _ \<Rightarrow> False)"

text \<open>
  What the proofs use of \<open>String.prototype.toUpperCase\<close>: the empty string is mapped to
  itself, no string is made shorter, and an uppercased string is its own uppercasing.
\<close>

definition uppercasing :: "('c list \<Rightarrow> 'c list) \<Rightarrow> bool" where
  "uppercasing toUpperCase \<longleftrightarrow>
     toUpperCase [] = [] \<and>
     (\<forall>s. length s \<le> length (toUpperCase s)) \<and>
     (\<forall>s. toUpperCase (toUpperCase s) = toUpperCase s)"

section \<open>Properties of the values\<close>

lemma upper_not_lower:
  "list_all (\<lambda>u. map_of (zip lowerLetters upperLetters) u = None) upperLetters"
  by code_simp

lemma upper_fixed:
  assumes "map_of (zip lowerLetters upperLetters) c = Some u"
  shows "toUpperUnit u = [u]"
proof -
  from assms have u: "u \<in> set upperLetters"
    by (meson map_of_SomeD set_zip_rightD)
  with upper_not_lower have "map_of (zip lowerLetters upperLetters) u = None"
    by (simp add: list_all_iff)
  moreover have "list_all (\<lambda>u. u \<noteq> CHR 0xDF \<and> u \<noteq> CHR 0xE9) upperLetters"
    by code_simp
  with u have "u \<noteq> CHR 0xDF \<and> u \<noteq> CHR 0xE9" by (simp add: list_all_iff)
  ultimately show ?thesis by (simp add: toUpperUnit_def)
qed

lemma toUpperUnit_idem: "concat (map toUpperUnit (toUpperUnit c)) = toUpperUnit c"
proof (cases "map_of (zip lowerLetters upperLetters) c")
  case (Some u)
  then have "toUpperUnit c = [u]" by (simp add: toUpperUnit_def)
  then show ?thesis by (simp add: upper_fixed [OF Some])
next
  case None
  have S: "toUpperUnit CHR ''S'' = ''S''" and E: "toUpperUnit (CHR 0xC9) = [CHR 0xC9]"
    by (simp_all add: toUpperUnit_def lowerLetters_def upperLetters_def)
  have "toUpperUnit c = [c]" if "c \<noteq> CHR 0xDF" "c \<noteq> CHR 0xE9"
    using that None by (simp add: toUpperUnit_def)
  moreover have "toUpperUnit (CHR 0xDF) = ''SS''" "toUpperUnit (CHR 0xE9) = [CHR 0xC9]"
    by (simp_all add: toUpperUnit_def lowerLetters_def upperLetters_def)
  ultimately show ?thesis using S E by (cases "c = CHR 0xDF"; cases "c = CHR 0xE9") simp_all
qed

lemma toUpperCaseLatin_idem: "toUpperCaseLatin (toUpperCaseLatin s) = toUpperCaseLatin s"
  by (induction s) (simp_all add: toUpperCaseLatin_def toUpperUnit_idem)

lemma toUpperUnit_length: "1 \<le> length (toUpperUnit c)"
  by (simp add: toUpperUnit_def split: option.splits)

lemma length_toUpperCaseLatin: "length s \<le> length (toUpperCaseLatin s)"
proof (induction s)
  case Nil
  show ?case by simp
next
  case (Cons c s)
  with toUpperUnit_length [of c] show ?case by (simp add: toUpperCaseLatin_def)
qed

lemma uppercasing_Latin: "uppercasing toUpperCaseLatin"
  unfolding uppercasing_def
  using toUpperCaseLatin_idem length_toUpperCaseLatin by (simp add: toUpperCaseLatin_def)

lemma floor_log2_eq:
  assumes "0 < a" and "2 powi e \<le> a" and "a < 2 powi (e + 1)"
  shows "\<lfloor>log 2 a\<rfloor> = e"
proof (rule floor_unique)
  have "(2::real) powr real_of_int e = 2 powi e" by (simp add: powr_real_of_int')
  with assms show "real_of_int e \<le> log 2 a" by (simp add: le_log_iff)
  have "(2::real) powr real_of_int (e + 1) = 2 powi (e + 1)" by (rule powr_real_of_int') simp_all
  with assms show "log 2 a < real_of_int e + 1" by (simp add: log_less_iff)
qed

lemma round_half_even_nonneg: "0 \<le> m \<Longrightarrow> 0 \<le> round_half_even m"
  by (simp add: round_half_even_def Let_def)

lemma to_binary64_nonneg:
  assumes "0 \<le> x"
  shows "to_binary64 x = PosInfinity \<or> (\<exists>y. to_binary64 x = Finite y \<and> 0 \<le> y)"
proof (cases "x = 0")
  case True
  then show ?thesis by (simp add: to_binary64_def)
next
  case False
  with assms have pos: "0 < x" by simp
  define q :: real where "q = 2 powi (binary64_exponent \<bar>x\<bar> - 52)"
  have q: "0 < q" by (simp add: q_def)
  with pos have "0 \<le> \<bar>x\<bar> / q" by simp
  then have "0 \<le> round_half_even (\<bar>x\<bar> / q)" by (rule round_half_even_nonneg)
  with q have "0 \<le> real_of_int (round_half_even (\<bar>x\<bar> / q)) * q" by simp
  with pos show ?thesis by (simp add: to_binary64_def Let_def q_def)
qed

text \<open>The number value of a real whose exponent and rounded significand are known.\<close>

lemma to_binary64_eval:
  assumes "0 < x" and "2 powi e \<le> x" and "x < 2 powi (e + 1)" and "- 1022 \<le> e"
    and "round_half_even (x / 2 powi (e - 52)) = k"
    and "real_of_int k * 2 powi (e - 52) < 2 powi 1024"
  shows "to_binary64 x = Finite (real_of_int k * 2 powi (e - 52))"
proof -
  have "binary64_exponent \<bar>x\<bar> = e"
    using assms floor_log2_eq [of x e] by (simp add: binary64_exponent_def)
  with assms show ?thesis by (simp add: to_binary64_def Let_def)
qed

lemma set_foldl_Set_add: "set (foldl Set_add acc xs) = set acc \<union> set xs"
  by (induction xs arbitrary: acc) (auto simp: Set_add_def)

lemma set_Set_new: "set (Set_new xs) = set xs"
  by (simp add: Set_new_def set_foldl_Set_add)

lemma distinct_foldl_Set_add: "distinct acc \<Longrightarrow> distinct (foldl Set_add acc xs)"
  by (induction xs arbitrary: acc) (auto simp: Set_add_def)

lemma distinct_Set_new: "distinct (Set_new xs)"
  by (simp add: Set_new_def distinct_foldl_Set_add)

lemma foldl_Set_add_distinct: "distinct (acc @ xs) \<Longrightarrow> foldl Set_add acc xs = acc @ xs"
proof (induction xs arbitrary: acc)
  case Nil
  then show ?case by simp
next
  case (Cons x xs)
  from Cons.prems have "distinct ((acc @ [x]) @ xs)" by auto
  from Cons.IH [OF this] Cons.prems show ?case by (simp add: Set_add_def)
qed

lemma Set_new_distinct: "distinct xs \<Longrightarrow> Set_new xs = xs"
  using foldl_Set_add_distinct [of "[]" xs] by (simp add: Set_new_def)

lemma Set_new_idem: "Set_new (Set_new xs) = Set_new xs"
  by (simp add: Set_new_distinct distinct_Set_new)

lemma Set_new_snoc: "Set_new (xs @ [x]) = Set_add (Set_new xs) x"
  by (simp add: Set_new_def)

lemma Set_new_first_occurrences: "Set_new xs = rev (remdups (rev xs))"
proof (induction xs rule: rev_induct)
  case Nil
  show ?case by (simp add: Set_new_def)
next
  case (snoc x xs)
  have "set (Set_new xs) = set xs" by (rule set_Set_new)
  with snoc show ?case by (simp add: Set_new_snoc Set_add_def)
qed

lemma length_Set_new: "length (Set_new xs) = card (set xs)"
  using distinct_card [OF distinct_Set_new, of xs] by (simp add: set_Set_new)

lemma addCodes_foldl: "addCodes acc cs = foldl Set_add acc cs"
  by (induction cs arbitrary: acc) (auto simp: Set_has_def Set_add_def)

lemma set_combineCodes:
  "set (combineCodes acc ps) = set acc \<union> (\<Union>p \<in> set ps. set (getValidCodes p))"
  by (induction ps arbitrary: acc) (auto simp: addCodes_foldl set_foldl_Set_add)

lemma distinct_combineCodes: "distinct acc \<Longrightarrow> distinct (combineCodes acc ps)"
  by (induction ps arbitrary: acc) (auto simp: addCodes_foldl distinct_foldl_Set_add)

lemma foldl_max2_len:
  "foldl max2 (Finite (real a)) (map (\<lambda>code. len code) xs) = Finite (real (fold max (map length xs) a))"
  by (induction xs arbitrary: a) (auto simp: max2_def len_def max_def)

lemma maxCodeLength_Nil: "maxCodeLength [] = NegInfinity"
  by (simp add: maxCodeLength_def Math_max_def)

lemma maxCodeLength_Cons:
  "maxCodeLength (x # xs) = Finite (real (Max (length ` set (x # xs))))"
proof -
  have "maxCodeLength (x # xs) = Finite (real (fold max (map length xs) (length x)))"
    by (simp add: maxCodeLength_def Math_max_def max2_def len_def foldl_max2_len [unfolded len_def])
  also have "fold max (map length xs) (length x) = Max (set (map length (x # xs)))"
    using Max.set_eq_fold [of "length x" "map length xs"] by simp
  finally show ?thesis by simp
qed

section \<open>Properties of the providers and of the schema\<close>

lemma num_le_1_len: "num_le (Finite 1) (len s) \<longleftrightarrow> s \<noteq> []"
  by (cases s) (simp_all add: len_def)

lemma safeParse_currencySchema:
  "safeParse (currencySchema toUpperCase p message) s =
     (let issues =
        (if s = [] then [Issue too_small emptyMessage] else []) @
        (if num_le (len s) (getMaxLength p) then []
         else [Issue too_big (exceedMessage (getMaxLength p))]) @
        (if toUpperCase s \<in> set (getValidCodes p) then []
         else [Issue custom (messageOr message (defaultMessage p))])
      in if issues = [] then Inr (toUpperCase s) else Inl issues)"
  by (simp add: safeParse_def currencySchema_def z_transform_def z_refine_def z_max_def
      z_min_def z_string_def Let_def Set_has_def num_le_1_len)

lemma accepts_iff:
  "safeParse (currencySchema toUpperCase p message) s = Inr out \<longleftrightarrow>
     s \<noteq> [] \<and> num_le (len s) (getMaxLength p) \<and> toUpperCase s \<in> set (getValidCodes p) \<and>
     out = toUpperCase s"
  by (auto simp add: safeParse_currencySchema Let_def)

lemma num_gt_not_le: "num_gt a b \<Longrightarrow> \<not> num_le a b"
  by (cases a; cases b) (auto simp add: num_gt_def)

lemma is_max_length_maxCodeLength: "is_max_length (maxCodeLength vs) vs"
  by (cases vs) (simp_all add: is_max_length_def maxCodeLength_Nil maxCodeLength_Cons del: set_simps)

lemma is_max_length_covers:
  assumes "is_max_length m codes" and "c \<in> set codes"
  shows "num_le (len c) m"
proof -
  from assms have ne: "codes \<noteq> []" by auto
  have "length c \<le> Max (length ` set codes)"
    using assms(2) by (simp add: Max_ge)
  with assms(1) ne show ?thesis by (simp add: is_max_length_def len_def)
qed

lemma maxCodeLength_set:
  assumes "set xs = set ys"
  shows "maxCodeLength xs = maxCodeLength ys"
proof (cases xs)
  case Nil
  with assms show ?thesis by simp
next
  case (Cons x xs')
  with assms obtain y ys' where ys: "ys = y # ys'" by (cases ys) auto
  have "Max (length ` set xs) = Max (length ` set ys)" using assms by simp
  then show ?thesis unfolding Cons ys maxCodeLength_Cons by simp
qed

lemma getValidCodes_distinct: "distinct (getValidCodes p)"
  by (cases p) (simp_all add: distinct_Set_new)

lemma Set_new_getValidCodes: "Set_new (getValidCodes p) = getValidCodes p"
  by (simp add: Set_new_distinct getValidCodes_distinct)

lemma Fiat_fields:
  "getValidCodes (FiatCurrencyProvider codes) = Set_new codes"
  "getMaxLength (FiatCurrencyProvider codes) = maxCodeLength (Set_new codes)"
  by (simp_all add: FiatCurrencyProvider_def Let_def Set_new_idem)

lemma Crypto_fields:
  assumes "CryptocurrencyProvider syms opts = Inr p"
  shows "getMaxLength p = maxCodeLength (getValidCodes p)"
  using assms
  by (auto simp add: CryptocurrencyProvider_def Let_def Set_new_idem Set_new_distinct
      distinct_Set_new split: if_splits option.splits)

lemma Multi_fields:
  assumes "MultiCurrencyProvider ps = Inr p"
  shows "getValidCodes p = combineCodes [] ps"
    and "getMaxLength p = maxCodeLength (combineCodes [] ps)"
  using assms
  by (auto simp add: MultiCurrencyProvider_def Let_def Set_new_distinct distinct_combineCodes
      split: if_splits)

lemma Multi_result:
  "ps \<noteq> [] \<Longrightarrow> MultiCurrencyProvider ps =
     Inr (Multi (combineCodes [] ps) (maxCodeLength (combineCodes [] ps)) ps)"
  by (simp add: MultiCurrencyProvider_def Let_def)

lemma Set_new_combineCodes: "Set_new (combineCodes [] ps) = combineCodes [] ps"
  by (simp add: Set_new_distinct distinct_combineCodes)

lemma slice0_count:
  assumes "0 \<le> x"
  shows "slice0 xs (Math_floor (Finite x)) = take (nat \<lfloor>x\<rfloor>) xs"
proof -
  have "\<not> real_of_int \<lfloor>x\<rfloor> < 0" using assms by simp
  moreover have "\<not> \<lfloor>x\<rfloor> < 0" using assms by simp
  ultimately show ?thesis by (simp add: slice0_def)
qed

lemma Crypto_codes:
  assumes "CryptocurrencyProvider syms opts = Inr p"
  shows "set (getValidCodes p) \<subseteq> set syms"
    and "opt_maxLength opts = None \<Longrightarrow> opt_percentage opts = None \<Longrightarrow>
      set (getValidCodes p) = set syms"
    and "opt_maxLength opts = Some (Finite L) \<Longrightarrow>
      set (getValidCodes p) = {c \<in> set syms. real (length c) \<le> L}"
proof -
  have "set (slice0 xs e) \<subseteq> set xs" for xs :: "'a list list" and e
    by (cases e) (simp_all add: slice0_def Let_def set_take_subset)
  then have sl: "x \<in> set syms" if "x \<in> set (slice0 (Set_new syms) e)" for x e
    using that set_Set_new [of syms] by blast
  show "set (getValidCodes p) \<subseteq> set syms"
    using assms
    by (auto simp add: CryptocurrencyProvider_def Let_def set_Set_new
        split: if_splits option.splits dest: sl)
  show "set (getValidCodes p) = set syms"
    if "opt_maxLength opts = None" "opt_percentage opts = None"
    using assms that by (auto simp add: CryptocurrencyProvider_def Let_def set_Set_new)
  show "set (getValidCodes p) = {c \<in> set syms. real (length c) \<le> L}"
    if "opt_maxLength opts = Some (Finite L)"
    using assms that
    by (auto simp add: CryptocurrencyProvider_def Let_def set_Set_new len_def
        split: if_splits option.splits)
qed

lemma Crypto_percentage:
  assumes "0 < P" and "P \<le> 1"
  shows "CryptocurrencyProvider syms \<lparr>opt_maxLength = None, opt_percentage = Some (Finite P)\<rparr> =
     Inr (Crypto
           (case num_mul (len (Set_new syms)) (Finite P) of
              Finite y \<Rightarrow> take (nat \<lfloor>y\<rfloor>) (Set_new syms) | _ \<Rightarrow> Set_new syms)
           (maxCodeLength
             (case num_mul (len (Set_new syms)) (Finite P) of
                Finite y \<Rightarrow> take (nat \<lfloor>y\<rfloor>) (Set_new syms) | _ \<Rightarrow> Set_new syms)))"
proof -
  have "0 \<le> real (length (Set_new syms)) * P" using assms by simp
  from to_binary64_nonneg [OF this]
  consider "num_mul (len (Set_new syms)) (Finite P) = PosInfinity"
    | y where "num_mul (len (Set_new syms)) (Finite P) = Finite y" "0 \<le> y"
    by (auto simp add: len_def)
  then show ?thesis
  proof cases
    case 1
    then show ?thesis
      using assms
      by (simp add: CryptocurrencyProvider_def Let_def num_gt_def slice0_def Set_new_idem)
  next
    case 2
    have "distinct (take (nat \<lfloor>y\<rfloor>) (Set_new syms))" by (simp add: distinct_Set_new)
    with 2 slice0_count [OF 2(2), of "Set_new syms"] show ?thesis
      using assms by (simp add: CryptocurrencyProvider_def Let_def num_gt_def Set_new_distinct)
  qed
qed

lemma createCurrencySchema_resolved:
  "createCurrencySchema toUpperCase fiatProvider options = Inr sch \<longleftrightarrow>
     (\<exists>p. finalProvider fiatProvider (opt_provider options) = Inr p \<and>
          sch = currencySchema toUpperCase p (opt_message options))"
  by (auto simp add: createCurrencySchema_def split: sum.splits)

lemmas eval_provider =
  FiatCurrencyProvider_def CryptocurrencyProvider_def MultiCurrencyProvider_def Let_def
  Set_new_def Set_add_def Set_has_def maxCodeLength_def Math_max_def max2_def len_def
  slice0_def num_gt_def

lemmas eval_schema =
  safeParse_currencySchema toUpperCaseLatin_def toUpperUnit_def lowerLetters_def
  upperLetters_def emptyMessage_def exceedMessage_def messageOr_def defaultMessage_def

section \<open>The example scenario of the specification\<close>

text \<open>
  A fiat-only validator accepts \<open>usd\<close> as \<open>USD\<close>, rejects \<open>BTC\<close>, the empty string and
  fifty letters; a list of providers is wrapped into a composite; an empty list of
  providers is an error of the factory.
\<close>

lemma example_scenario:
  "safeParse (currencySchema toUpperCaseLatin (FiatCurrencyProvider [''USD'', ''EUR'', ''GBP''])
       None) ''usd'' = Inr ''USD''"
  "safeParse (currencySchema toUpperCaseLatin (FiatCurrencyProvider [''USD'', ''EUR'', ''GBP''])
       None) ''BTC'' =
     Inl [Issue custom
       [Str ''Invalid currency code. Must be a valid currency code from Fiat Currency Provider.'']]"
  "safeParse (currencySchema toUpperCaseLatin (FiatCurrencyProvider [''USD'', ''EUR'', ''GBP''])
       None) '''' =
     Inl [Issue too_small [Str ''Currency code cannot be empty''],
          Issue custom
       [Str ''Invalid currency code. Must be a valid currency code from Fiat Currency Provider.'']]"
  "safeParse (currencySchema toUpperCaseLatin (FiatCurrencyProvider [''USD'', ''EUR'', ''GBP''])
       None) (replicate 50 (CHR ''A'')) =
     Inl [Issue too_big [Str ''Currency code cannot exceed '', Num (Finite 3), Str '' characters''],
          Issue custom
       [Str ''Invalid currency code. Must be a valid currency code from Fiat Currency Provider.'']]"
  by code_simp+

lemma example_provider_array:
  "case createCurrencySchema toUpperCaseLatin (FiatCurrencyProvider [''USD'', ''EUR''])
       \<lparr>opt_provider = Some (Array [FiatCurrencyProvider [''USD'', ''EUR''],
          Crypto [''BTC'', ''ETH''] (Finite 3)]), opt_message = None\<rparr> of
     Inl e \<Rightarrow> False
   | Inr sch \<Rightarrow> safeParse sch ''btc'' = Inr ''BTC'' \<and> safeParse sch ''Usd'' = Inr ''USD''"
  by code_simp

lemma example_empty_array:
  "case createCurrencySchema toUpperCaseLatin (FiatCurrencyProvider [''USD'', ''EUR''])
       \<lparr>opt_provider = Some (Array []), opt_message = None\<rparr> of
     Inl e \<Rightarrow> e = Error ''At least one provider must be specified''
   | Inr sch \<Rightarrow> False"
  by code_simp

text \<open>
  Uppercasing beyond the letters a-z: an input with the e with acute accent is uppercased
  before the lookup, and an input with a sharp s is accepted as the longer code it is
  uppercased to. A max length of \<open>NaN\<close> passes no input.
\<close>

lemma example_uppercasing:
  "safeParse (currencySchema toUpperCaseLatin (Custom [''CAF'' @ [CHR 0xE9]] (Finite 4) ''P'')
       None) (''caf'' @ [CHR 0xE9]) =
     Inl [Issue custom [Str ''Invalid currency code. Must be a valid currency code from P.'']]"
  "safeParse (currencySchema toUpperCaseLatin (Custom [''CAF'' @ [CHR 0xC9]] (Finite 4) ''P'')
       None) (''caf'' @ [CHR 0xE9]) = Inr (''CAF'' @ [CHR 0xC9])"
  "safeParse (currencySchema toUpperCaseLatin (Custom [''SSP''] (Finite 3) ''P'') None)
       [CHR 0xDF, CHR ''p''] = Inr ''SSP''"
  "safeParse (currencySchema toUpperCaseLatin (Custom [''USD''] NaN ''P'') None) ''usd'' =
     Inl [Issue too_big [Str ''Currency code cannot exceed '', Num NaN, Str '' characters'']]"
  by code_simp+

text \<open>
  The product is the rounded one: three times the binary64 value nearest to one third is
  exactly 1, so that percentage keeps one of three symbols.
\<close>

lemma product_third: "to_binary64 (3 * (6004799503160661 / 18014398509481984)) = Finite 1"
  using to_binary64_eval [of "3 * (6004799503160661 / 18014398509481984)" "- 1" 9007199254740992]
  by (simp add: round_half_even_def Let_def)

lemma example_rounded_product:
  "CryptocurrencyProvider [''BTC'', ''ETH'', ''LTC'']
     \<lparr>opt_maxLength = None,
      opt_percentage = Some (Finite (6004799503160661 / 18014398509481984))\<rparr> =
     Inr (Crypto [''BTC''] (Finite 3))"
  using product_third by (simp add: eval_provider)

text \<open>Products that are binary64 values themselves.\<close>

lemma product_exact:
  "to_binary64 (5 / 2) = Finite (5 / 2)"
  "to_binary64 (3 / 4) = Finite (3 / 4)"
  "to_binary64 1 = Finite 1"
  "to_binary64 2 = Finite 2"
  using to_binary64_eval [of "5 / 2" 1 5629499534213120]
    to_binary64_eval [of "3 / 4" "- 1" 6755399441055744]
    to_binary64_eval [of 1 0 4503599627370496]
    to_binary64_eval [of 2 1 4503599627370496]
  by (simp_all add: round_half_even_def Let_def)

section \<open>The claims of the specification\<close>

subsection \<open>Accepted codes\<close>

text \<open>
  C1, as the code has it. Let the provider be a \<open>FiatCurrencyProvider\<close>, a
  \<open>CryptocurrencyProvider\<close>, a \<open>MultiCurrencyProvider\<close>, or any provider each of whose
  codes has a length \<open><=\<close> its \<open>getMaxLength()\<close>. For every code \<open>c\<close> in its code set that is
  not the empty string, validating any letter-case variant of \<open>c\<close> (a string whose
  uppercasing equals \<open>c\<close>) succeeds and returns \<open>c\<close>, which is its own uppercasing.
\<close>

theorem member_accepted:
  assumes up: "uppercasing toUpperCase"
    and prov: "p = FiatCurrencyProvider codes \<or> CryptocurrencyProvider syms opts = Inr p \<or>
      MultiCurrencyProvider ps = Inr p \<or>
      (\<forall>d \<in> set (getValidCodes p). num_le (len d) (getMaxLength p))"
    and mem: "Set_has (getValidCodes p) c" and ne: "c \<noteq> []" and var: "toUpperCase s = c"
  shows "safeParse (currencySchema toUpperCase p message) s = Inr c \<and> toUpperCase c = c"
proof -
  have "is_max_length (getMaxLength p) (getValidCodes p) \<or>
      (\<forall>d \<in> set (getValidCodes p). num_le (len d) (getMaxLength p))"
    using prov
    by (auto simp add: Fiat_fields Crypto_fields Multi_fields is_max_length_maxCodeLength)
  then have "\<forall>d \<in> set (getValidCodes p). num_le (len d) (getMaxLength p)"
    by (auto dest: is_max_length_covers)
  with mem obtain m where m: "getMaxLength p = m" "num_le (len c) m"
    by (simp add: Set_has_def)
  have "length s \<le> length c" using up var by (auto simp add: uppercasing_def)
  with m(2) have "num_le (len s) m" by (cases m) (simp_all add: len_def)
  moreover have "s \<noteq> []" using ne var up by (auto simp add: uppercasing_def)
  moreover have "toUpperCase s \<in> set (getValidCodes p)" using mem var by (simp add: Set_has_def)
  ultimately have "safeParse (currencySchema toUpperCase p message) s = Inr c"
    using var m(1) by (simp add: safeParse_currencySchema Let_def)
  moreover have "toUpperCase c = c" using var up by (auto simp add: uppercasing_def)
  ultimately show ?thesis by simp
qed

theorem member_accepted_witness:
  "uppercasing toUpperCaseLatin \<and>
   Set_has (getValidCodes (FiatCurrencyProvider [''SSP'', ''USD''])) ''SSP'' \<and>
   toUpperCaseLatin [CHR 0xDF, CHR ''p''] = ''SSP'' \<and>
   safeParse (currencySchema toUpperCaseLatin (FiatCurrencyProvider [''SSP'', ''USD'']) None)
     [CHR 0xDF, CHR ''p''] = Inr ''SSP''"
proof -
  have mem: "Set_has (getValidCodes (FiatCurrencyProvider [''SSP'', ''USD''])) ''SSP''"
    by (simp add: eval_provider)
  have var: "toUpperCaseLatin [CHR 0xDF, CHR ''p''] = ''SSP''"
    by (simp add: eval_schema)
  have ne: "''SSP'' \<noteq> []" by simp
  from member_accepted [where p = "FiatCurrencyProvider [''SSP'', ''USD'']",
      OF uppercasing_Latin disjI1 [OF refl] mem ne var]
  show ?thesis using mem var uppercasing_Latin by blast
qed

text \<open>
  Without the two conditions the statement fails. A provider written by the caller that
  reports a maximum length of 2 for the code set \<open>{USD}\<close> rejects \<open>usd\<close> at the length
  gate; a \<open>CryptocurrencyProvider\<close> over a source list holding the empty string has the
  empty string in its code set, and its only letter-case variant is rejected as empty.
\<close>

theorem member_accepted_counterexample:
  "Set_has (getValidCodes (Custom [''USD''] (Finite 2) ''Custom Provider'')) ''USD'' \<and>
   toUpperCaseLatin ''usd'' = ''USD'' \<and>
   safeParse (currencySchema toUpperCaseLatin (Custom [''USD''] (Finite 2) ''Custom Provider'')
       None) ''usd'' =
     Inl [Issue too_big [Str ''Currency code cannot exceed '', Num (Finite 2), Str '' characters'']] \<and>
   CryptocurrencyProvider ['''', ''BTC''] \<lparr>opt_maxLength = None, opt_percentage = None\<rparr> =
     Inr (Crypto ['''', ''BTC''] (Finite 3)) \<and>
   Set_has (getValidCodes (Crypto ['''', ''BTC''] (Finite 3))) '''' \<and>
   toUpperCaseLatin '''' = '''' \<and>
   safeParse (currencySchema toUpperCaseLatin (Crypto ['''', ''BTC''] (Finite 3)) None) '''' =
     Inl [Issue too_small [Str ''Currency code cannot be empty'']]"
  by (simp add: eval_provider eval_schema)

subsection \<open>The composite provider\<close>

text \<open>
  C2. \<open>MultiCurrencyProvider([A, B])\<close> is constructed, its code set is the union of the code
  sets of \<open>A\<close> and \<open>B\<close>, and its size is the size of that union. For every non-empty list
  of providers a code is in the composite's set exactly when it is in the set of some
  member, and two non-empty lists whose members hold the same codes between them accept
  the same inputs with the same results. In particular a list with the same members in
  another order gives the same code set and the same results.
\<close>

theorem composite_union:
  "(case MultiCurrencyProvider [A, B] of
      Inl e \<Rightarrow> False
    | Inr m \<Rightarrow>
        set (getValidCodes m) = set (getValidCodes A) \<union> set (getValidCodes B) \<and>
        length (getValidCodes m) = card (set (getValidCodes A) \<union> set (getValidCodes B))) \<and>
   (ps \<noteq> [] \<and> qs \<noteq> [] \<and>
    (\<forall>c. (\<exists>q \<in> set qs. Set_has (getValidCodes q) c) =
         (\<exists>p \<in> set ps. Set_has (getValidCodes p) c)) \<longrightarrow>
     (case (MultiCurrencyProvider ps, MultiCurrencyProvider qs) of
        (Inr m, Inr n) \<Rightarrow>
          (\<forall>c. Set_has (getValidCodes m) c = (\<exists>p \<in> set ps. Set_has (getValidCodes p) c)) \<and>
          (\<forall>message s out.
             (safeParse (currencySchema toUpperCase n message) s = Inr out) =
             (safeParse (currencySchema toUpperCase m message) s = Inr out))
      | _ \<Rightarrow> False)) \<and>
   (ps \<noteq> [] \<and> set qs = set ps \<longrightarrow>
     (case (MultiCurrencyProvider ps, MultiCurrencyProvider qs) of
        (Inr m, Inr n) \<Rightarrow>
          (\<forall>c. Set_has (getValidCodes n) c = Set_has (getValidCodes m) c) \<and>
          (\<forall>message s out.
             (safeParse (currencySchema toUpperCase n message) s = Inr out) =
             (safeParse (currencySchema toUpperCase m message) s = Inr out))
      | _ \<Rightarrow> False))"
proof -
  have same: "case (MultiCurrencyProvider ps, MultiCurrencyProvider qs) of
        (Inr m, Inr n) \<Rightarrow>
          (\<forall>c. Set_has (getValidCodes m) c = (\<exists>p \<in> set ps. Set_has (getValidCodes p) c)) \<and>
          (\<forall>c. Set_has (getValidCodes n) c = Set_has (getValidCodes m) c) \<and>
          (\<forall>message s out.
             (safeParse (currencySchema toUpperCase n message) s = Inr out) =
             (safeParse (currencySchema toUpperCase m message) s = Inr out))
      | _ \<Rightarrow> False"
    if ne: "ps \<noteq> []" "qs \<noteq> []"
      and un: "\<forall>c. (\<exists>q \<in> set qs. Set_has (getValidCodes q) c) =
         (\<exists>p \<in> set ps. Set_has (getValidCodes p) c)"
    for ps qs
  proof -
    have eq: "set (combineCodes [] qs) = set (combineCodes [] ps)"
      using un by (auto simp add: set_combineCodes Set_has_def)
    have mx: "maxCodeLength (combineCodes [] qs) = maxCodeLength (combineCodes [] ps)"
      using eq by (rule maxCodeLength_set)
    show ?thesis
      using ne eq mx
      by (simp add: Multi_result Set_new_combineCodes accepts_iff Set_has_def set_combineCodes)
  qed
  have ab: "case MultiCurrencyProvider [A, B] of
      Inl e \<Rightarrow> False
    | Inr m \<Rightarrow>
        set (getValidCodes m) = set (getValidCodes A) \<union> set (getValidCodes B) \<and>
        length (getValidCodes m) = card (set (getValidCodes A) \<union> set (getValidCodes B))"
  proof -
    have "set (combineCodes [] [A, B]) = set (getValidCodes A) \<union> set (getValidCodes B)"
      by (simp add: set_combineCodes del: combineCodes.simps)
    moreover from this have
      "length (combineCodes [] [A, B]) = card (set (getValidCodes A) \<union> set (getValidCodes B))"
      using distinct_card [of "combineCodes [] [A, B]"] distinct_combineCodes [of "[]" "[A, B]"]
      by simp
    ultimately show ?thesis
      by (simp add: Multi_result Set_new_combineCodes del: combineCodes.simps)
  qed
  have general: "case (MultiCurrencyProvider ps, MultiCurrencyProvider qs) of
        (Inr m, Inr n) \<Rightarrow>
          (\<forall>c. Set_has (getValidCodes m) c = (\<exists>p \<in> set ps. Set_has (getValidCodes p) c)) \<and>
          (\<forall>message s out.
             (safeParse (currencySchema toUpperCase n message) s = Inr out) =
             (safeParse (currencySchema toUpperCase m message) s = Inr out))
      | _ \<Rightarrow> False"
    if "ps \<noteq> [] \<and> qs \<noteq> [] \<and>
      (\<forall>c. (\<exists>q \<in> set qs. Set_has (getValidCodes q) c) =
         (\<exists>p \<in> set ps. Set_has (getValidCodes p) c))"
    using same [of ps qs] that by (auto split: sum.splits)
  have order: "case (MultiCurrencyProvider ps, MultiCurrencyProvider qs) of
        (Inr m, Inr n) \<Rightarrow>
          (\<forall>c. Set_has (getValidCodes n) c = Set_has (getValidCodes m) c) \<and>
          (\<forall>message s out.
             (safeParse (currencySchema toUpperCase n message) s = Inr out) =
             (safeParse (currencySchema toUpperCase m message) s = Inr out))
      | _ \<Rightarrow> False"
    if a: "ps \<noteq> [] \<and> set qs = set ps"
  proof -
    from a have "qs \<noteq> []" by auto
    with a same [of ps qs] show ?thesis by (auto split: sum.splits)
  qed
  from ab general order show ?thesis by blast
qed

theorem composite_union_witness:
  "[Custom [''USD'', ''EUR''] (Finite 3) ''A'', Custom [''BTC'', ''USD''] (Finite 3) ''B''] \<noteq> [] \<and>
   set [Custom [''BTC'', ''USD''] (Finite 3) ''B'', Custom [''USD'', ''EUR''] (Finite 3) ''A''] =
   set [Custom [''USD'', ''EUR''] (Finite 3) ''A'', Custom [''BTC'', ''USD''] (Finite 3) ''B''] \<and>
   MultiCurrencyProvider
     [Custom [''USD'', ''EUR''] (Finite 3) ''A'', Custom [''BTC'', ''USD''] (Finite 3) ''B''] =
     Inr (Multi [''USD'', ''EUR'', ''BTC''] (Finite 3)
       [Custom [''USD'', ''EUR''] (Finite 3) ''A'', Custom [''BTC'', ''USD''] (Finite 3) ''B'']) \<and>
   MultiCurrencyProvider
     [Custom [''BTC'', ''USD''] (Finite 3) ''B'', Custom [''USD'', ''EUR''] (Finite 3) ''A''] =
     Inr (Multi [''BTC'', ''USD'', ''EUR''] (Finite 3)
       [Custom [''BTC'', ''USD''] (Finite 3) ''B'', Custom [''USD'', ''EUR''] (Finite 3) ''A'']) \<and>
   length [''USD'', ''EUR'', ''BTC''] = card (set [''USD'', ''EUR''] \<union> set [''BTC'', ''USD''])"
proof -
  let ?A = "Custom [''USD'', ''EUR''] (Finite 3) ''A''"
  let ?B = "Custom [''BTC'', ''USD''] (Finite 3) ''B''"
  have ab: "MultiCurrencyProvider [?A, ?B] =
      Inr (Multi [''USD'', ''EUR'', ''BTC''] (Finite 3) [?A, ?B])"
    by (simp add: eval_provider)
  have ba: "MultiCurrencyProvider [?B, ?A] =
      Inr (Multi [''BTC'', ''USD'', ''EUR''] (Finite 3) [?B, ?A])"
    by (simp add: eval_provider)
  have perm: "[?A, ?B] \<noteq> [] \<and> set [?B, ?A] = set [?A, ?B]" by auto
  have va: "getValidCodes ?A = [''USD'', ''EUR'']" and vb: "getValidCodes ?B = [''BTC'', ''USD'']"
    and vm: "getValidCodes (Multi [''USD'', ''EUR'', ''BTC''] (Finite 3) [?A, ?B]) = [''USD'', ''EUR'', ''BTC'']"
    by (simp_all add: eval_provider)
  have un: "[?A, ?B] \<noteq> [] \<and> [?B, ?A] \<noteq> [] \<and>
      (\<forall>c. (\<exists>q \<in> set [?B, ?A]. Set_has (getValidCodes q) c) =
           (\<exists>p \<in> set [?A, ?B]. Set_has (getValidCodes p) c))"
    by auto
  from composite_union [of ?A ?B "[?A, ?B]" "[?B, ?A]"] perm un
  have "length [''USD'', ''EUR'', ''BTC''] = card (set [''USD'', ''EUR''] \<union> set [''BTC'', ''USD''])"
    unfolding ab ba by (simp add: va vb vm del: getValidCodes.simps)
  with ab ba perm show ?thesis by simp
qed

text \<open>
  C10. \<open>MultiCurrencyProvider([A])\<close> is constructed, \<open>getValidCodes()\<close> of it is
  \<open>A.getValidCodes()\<close>, and \<open>getMaxLength()\<close> of it is the true maximum code length of the
  code set of \<open>A\<close>, whatever \<open>A.getMaxLength()\<close> says.
\<close>

theorem single_composite:
  "case MultiCurrencyProvider [A] of
     Inl e \<Rightarrow> False
   | Inr m \<Rightarrow>
       getValidCodes m = getValidCodes A \<and>
       is_max_length (getMaxLength m) (getValidCodes A)"
proof -
  have "combineCodes [] [A] = getValidCodes A"
    using Set_new_getValidCodes [of A] by (simp add: addCodes_foldl Set_new_def)
  then show ?thesis
    using Set_new_combineCodes [of "[A]"]
    by (simp add: Multi_result is_max_length_maxCodeLength del: combineCodes.simps)
qed

theorem single_composite_witness:
  "MultiCurrencyProvider [Custom [''USD'', ''DOGE''] (Finite 9) ''A''] =
     Inr (Multi [''USD'', ''DOGE''] (Finite 4) [Custom [''USD'', ''DOGE''] (Finite 9) ''A'']) \<and>
   getValidCodes (Multi [''USD'', ''DOGE''] (Finite 4) [Custom [''USD'', ''DOGE''] (Finite 9) ''A'']) =
     getValidCodes (Custom [''USD'', ''DOGE''] (Finite 9) ''A'') \<and>
   is_max_length (Finite 4) (getValidCodes (Custom [''USD'', ''DOGE''] (Finite 9) ''A''))"
proof -
  have m: "MultiCurrencyProvider [Custom [''USD'', ''DOGE''] (Finite 9) ''A''] =
      Inr (Multi [''USD'', ''DOGE''] (Finite 4) [Custom [''USD'', ''DOGE''] (Finite 9) ''A''])"
    by (simp add: eval_provider)
  from single_composite [of "Custom [''USD'', ''DOGE''] (Finite 9) ''A''"] m
  show ?thesis unfolding m by (simp del: getValidCodes.simps)
qed

subsection \<open>The maximum length\<close>

text \<open>
  C3, as the code has it. A \<open>FiatCurrencyProvider\<close> holds the codes of its table, a
  \<open>CryptocurrencyProvider\<close> that was constructed holds codes of its source list (all of
  them without a filter, those of length \<open><= L\<close> for a maximum length \<open>L\<close>), and a
  \<open>MultiCurrencyProvider\<close> that was constructed holds the codes of its members. For each
  of them, when the code set is not empty, \<open>getMaxLength()\<close> is the largest length of a
  code in \<open>getValidCodes()\<close>; when the code set is empty there is no largest length and
  \<open>getMaxLength()\<close> is \<open>-Infinity\<close>.
\<close>

theorem max_length_invariant:
  fixes codes syms :: "'c list list" and ps :: "'c provider list"
  shows
  "(set (getValidCodes (FiatCurrencyProvider codes)) = set codes \<and>
    (codes \<noteq> [] \<longrightarrow>
       getMaxLength (FiatCurrencyProvider codes) = Finite (real (Max (length ` set codes)))) \<and>
    (codes = [] \<longrightarrow> getMaxLength (FiatCurrencyProvider codes) = NegInfinity)) \<and>
   (\<forall>p. CryptocurrencyProvider syms opts = Inr p \<longrightarrow>
      set (getValidCodes p) \<subseteq> set syms \<and>
      (opt_maxLength opts = None \<and> opt_percentage opts = None \<longrightarrow>
         set (getValidCodes p) = set syms) \<and>
      (\<forall>L. opt_maxLength opts = Some (Finite L) \<longrightarrow>
         set (getValidCodes p) = {c \<in> set syms. real (length c) \<le> L}) \<and>
      (getValidCodes p \<noteq> [] \<longrightarrow>
         getMaxLength p = Finite (real (Max (length ` set (getValidCodes p))))) \<and>
      (getValidCodes p = [] \<longrightarrow> getMaxLength p = NegInfinity)) \<and>
   (\<forall>p. MultiCurrencyProvider ps = Inr p \<longrightarrow>
      set (getValidCodes p) = (\<Union>q \<in> set ps. set (getValidCodes q)) \<and>
      (getValidCodes p \<noteq> [] \<longrightarrow>
         getMaxLength p = Finite (real (Max (length ` set (getValidCodes p))))) \<and>
      (getValidCodes p = [] \<longrightarrow> getMaxLength p = NegInfinity))"
proof (intro conjI allI impI)
  have inv: "(vs \<noteq> [] \<longrightarrow> maxCodeLength vs = Finite (real (Max (length ` set vs)))) \<and>
      (vs = [] \<longrightarrow> maxCodeLength vs = NegInfinity)" for vs :: "'c list list"
    using is_max_length_maxCodeLength [of vs]
    by (auto simp add: is_max_length_def maxCodeLength_Nil)
  show "set (getValidCodes (FiatCurrencyProvider codes)) = set codes"
    by (simp add: Fiat_fields set_Set_new)
  show "getMaxLength (FiatCurrencyProvider codes) = Finite (real (Max (length ` set codes)))"
    if "codes \<noteq> []"
  proof -
    from that have "Set_new codes \<noteq> []" using set_Set_new [of codes] by auto
    with inv [of "Set_new codes"] show ?thesis by (simp add: Fiat_fields set_Set_new)
  qed
  show "getMaxLength (FiatCurrencyProvider codes) = NegInfinity" if "codes = []"
    using that by (simp add: Fiat_fields Set_new_def maxCodeLength_Nil)
  fix p
  {
    assume c: "CryptocurrencyProvider syms opts = Inr p"
    show "set (getValidCodes p) \<subseteq> set syms" by (rule Crypto_codes(1) [OF c])
    show "set (getValidCodes p) = set syms"
      if "opt_maxLength opts = None \<and> opt_percentage opts = None"
      using that Crypto_codes(2) [OF c] by simp
    show "set (getValidCodes p) = {c \<in> set syms. real (length c) \<le> L}"
      if "opt_maxLength opts = Some (Finite L)" for L
      using that by (rule Crypto_codes(3) [OF c])
    show "getMaxLength p = Finite (real (Max (length ` set (getValidCodes p))))"
      if "getValidCodes p \<noteq> []"
      using that inv [of "getValidCodes p"] by (simp add: Crypto_fields [OF c])
    show "getMaxLength p = NegInfinity" if "getValidCodes p = []"
      using that by (simp add: Crypto_fields [OF c] maxCodeLength_Nil)
  }
  {
    assume m: "MultiCurrencyProvider ps = Inr p"
    show "set (getValidCodes p) = (\<Union>q \<in> set ps. set (getValidCodes q))"
      by (simp add: Multi_fields(1) [OF m] set_combineCodes)
    show "getMaxLength p = Finite (real (Max (length ` set (getValidCodes p))))"
      if "getValidCodes p \<noteq> []"
      using that inv [of "getValidCodes p"] by (simp add: Multi_fields [OF m])
    show "getMaxLength p = NegInfinity" if "getValidCodes p = []"
      using that by (simp add: Multi_fields [OF m] maxCodeLength_Nil)
  }
qed

theorem max_length_invariant_witness:
  "[''USD'', ''EUR'', ''DOGE''] \<noteq> [] \<and>
   getMaxLength (FiatCurrencyProvider [''USD'', ''EUR'', ''DOGE'']) =
     Finite (real (Max (length ` set [''USD'', ''EUR'', ''DOGE'']))) \<and>
   Max (length ` set [''USD'', ''EUR'', ''DOGE'']) = 4 \<and>
   CryptocurrencyProvider [''BTC'', ''DOGE'', ''ETH'']
     \<lparr>opt_maxLength = Some (Finite 3), opt_percentage = None\<rparr> =
     Inr (Crypto [''BTC'', ''ETH''] (Finite 3)) \<and>
   set (getValidCodes (Crypto [''BTC'', ''ETH''] (Finite 3))) =
     {c \<in> set [''BTC'', ''DOGE'', ''ETH'']. real (length c) \<le> 3} \<and>
   getValidCodes (Crypto [''BTC'', ''ETH''] (Finite 3)) \<noteq> [] \<and>
   getMaxLength (Crypto [''BTC'', ''ETH''] (Finite 3)) =
     Finite (real (Max (length ` set (getValidCodes (Crypto [''BTC'', ''ETH''] (Finite 3)))))) \<and>
   MultiCurrencyProvider [Custom [''USD'', ''DOGE''] (Finite 9) ''A''] =
     Inr (Multi [''USD'', ''DOGE''] (Finite 4) [Custom [''USD'', ''DOGE''] (Finite 9) ''A'']) \<and>
   getValidCodes (Multi [''USD'', ''DOGE''] (Finite 4) [Custom [''USD'', ''DOGE''] (Finite 9) ''A''])
     \<noteq> [] \<and>
   getMaxLength (Multi [''USD'', ''DOGE''] (Finite 4) [Custom [''USD'', ''DOGE''] (Finite 9) ''A'']) =
     Finite (real (Max (length ` set (getValidCodes
       (Multi [''USD'', ''DOGE''] (Finite 4) [Custom [''USD'', ''DOGE''] (Finite 9) ''A''])))))"
proof -
  have f: "[''USD'', ''EUR'', ''DOGE''] \<noteq> []" by simp
  have mx: "Max (length ` set [''USD'', ''EUR'', ''DOGE'']) = 4" by simp
  have c: "CryptocurrencyProvider [''BTC'', ''DOGE'', ''ETH'']
      \<lparr>opt_maxLength = Some (Finite 3), opt_percentage = None\<rparr> =
      Inr (Crypto [''BTC'', ''ETH''] (Finite 3))"
    by (simp add: eval_provider)
  have cn: "getValidCodes (Crypto [''BTC'', ''ETH''] (Finite 3)) \<noteq> []"
    by (simp add: eval_provider)
  have m: "MultiCurrencyProvider [Custom [''USD'', ''DOGE''] (Finite 9) ''A''] =
      Inr (Multi [''USD'', ''DOGE''] (Finite 4) [Custom [''USD'', ''DOGE''] (Finite 9) ''A''])"
    by (simp add: eval_provider)
  have mn: "getValidCodes
      (Multi [''USD'', ''DOGE''] (Finite 4) [Custom [''USD'', ''DOGE''] (Finite 9) ''A'']) \<noteq> []"
    by (simp add: eval_provider)
  have o: "opt_maxLength \<lparr>opt_maxLength = Some (Finite 3), opt_percentage = None\<rparr> =
      Some (Finite 3)"
    by simp
  from max_length_invariant [of "[''USD'', ''EUR'', ''DOGE'']" "[''BTC'', ''DOGE'', ''ETH'']"
      "\<lparr>opt_maxLength = Some (Finite 3), opt_percentage = None\<rparr>"
      "[Custom [''USD'', ''DOGE''] (Finite 9) ''A'']"] f mx c cn m mn o
  show ?thesis by blast
qed

text \<open>
  A maximum length of 2 leaves none of the symbols BTC and ETH: the code set is empty, it
  has no maximum code length, and \<open>getMaxLength()\<close> is \<open>-Infinity\<close>.
\<close>

theorem max_length_invariant_counterexample:
  "CryptocurrencyProvider [''BTC'', ''ETH'']
     \<lparr>opt_maxLength = Some (Finite 2), opt_percentage = None\<rparr> =
     Inr (Crypto [] NegInfinity) \<and>
   getValidCodes (Crypto [] NegInfinity :: char provider) = [] \<and>
   getMaxLength (Crypto [] NegInfinity :: char provider) = NegInfinity"
  by (simp add: eval_provider)

subsection \<open>The filters of the cryptocurrency provider\<close>

text \<open>
  C4, as the code has it. Given only a percentage \<open>P\<close> with \<open>0 < P \<le> 1\<close>, the provider is
  constructed and its code set is the first \<open>floor(n * P)\<close> codes of the source list with
  repeated codes dropped (the first occurrence stays, in the source order), where \<open>n\<close> is the
  number of distinct codes and \<open>n * P\<close> is the binary64 product (all of the codes should the
  product be \<open>Infinity\<close>). When no code is repeated in the source list, this is the first
  \<open>floor(sourceSize * P)\<close> codes of the source list, \<open>sourceSize\<close> being its size.
\<close>

theorem percentage_prefix:
  assumes "0 < P" and "P \<le> 1"
  shows "case CryptocurrencyProvider syms
               \<lparr>opt_maxLength = None, opt_percentage = Some (Finite P)\<rparr> of
     Inl e \<Rightarrow> False
   | Inr p \<Rightarrow>
       getValidCodes p =
         (case num_mul (Finite (real (card (set syms)))) (Finite P) of
            Finite y \<Rightarrow> take (nat \<lfloor>y\<rfloor>) (rev (remdups (rev syms)))
          | _ \<Rightarrow> rev (remdups (rev syms))) \<and>
       (distinct syms \<longrightarrow>
          getValidCodes p =
            (case num_mul (Finite (real (length syms))) (Finite P) of
               Finite y \<Rightarrow> take (nat \<lfloor>y\<rfloor>) syms
             | _ \<Rightarrow> syms))"
proof -
  define vs where "vs =
    (case num_mul (len (Set_new syms)) (Finite P) of
       Finite y \<Rightarrow> take (nat \<lfloor>y\<rfloor>) (Set_new syms) | _ \<Rightarrow> Set_new syms)"
  have c: "CryptocurrencyProvider syms
      \<lparr>opt_maxLength = None, opt_percentage = Some (Finite P)\<rparr> =
      Inr (Crypto vs (maxCodeLength vs))"
    unfolding vs_def by (rule Crypto_percentage [OF assms])
  have "distinct vs" by (simp add: vs_def distinct_Set_new split: number.splits)
  then have gv: "getValidCodes (Crypto vs (maxCodeLength vs)) = vs"
    by (simp add: Set_new_distinct)
  have l: "len (Set_new syms) = Finite (real (card (set syms)))"
    by (simp add: len_def length_Set_new)
  have e1: "vs =
      (case num_mul (Finite (real (card (set syms)))) (Finite P) of
         Finite y \<Rightarrow> take (nat \<lfloor>y\<rfloor>) (rev (remdups (rev syms)))
       | _ \<Rightarrow> rev (remdups (rev syms)))"
    unfolding vs_def l by (simp only: Set_new_first_occurrences)
  have e2: "vs =
      (case num_mul (Finite (real (length syms))) (Finite P) of
         Finite y \<Rightarrow> take (nat \<lfloor>y\<rfloor>) syms | _ \<Rightarrow> syms)"
    if "distinct syms"
    unfolding vs_def Set_new_distinct [OF that] by (simp add: len_def)
  show ?thesis
    unfolding c sum.case gv using e1 e2 by blast
qed

theorem percentage_prefix_witness:
  "(0::real) < 1 / 2 \<and> (1 / 2 :: real) \<le> 1 \<and> distinct [''BTC'', ''ETH'', ''LTC'', ''XRP'', ''ADA''] \<and>
   CryptocurrencyProvider [''BTC'', ''ETH'', ''LTC'', ''XRP'', ''ADA'']
     \<lparr>opt_maxLength = None, opt_percentage = Some (Finite (1 / 2))\<rparr> =
     Inr (Crypto [''BTC'', ''ETH''] (Finite 3)) \<and>
   num_mul (Finite (real (length [''BTC'', ''ETH'', ''LTC'', ''XRP'', ''ADA'']))) (Finite (1 / 2)) =
     Finite (5 / 2) \<and>
   getValidCodes (Crypto [''BTC'', ''ETH''] (Finite 3)) =
     take (nat \<lfloor>5 / 2 :: real\<rfloor>) [''BTC'', ''ETH'', ''LTC'', ''XRP'', ''ADA'']"
proof -
  have h: "(0::real) < 1 / 2" "(1 / 2 :: real) \<le> 1" by simp_all
  have d: "distinct [''BTC'', ''ETH'', ''LTC'', ''XRP'', ''ADA'']" by simp
  have c: "CryptocurrencyProvider [''BTC'', ''ETH'', ''LTC'', ''XRP'', ''ADA'']
      \<lparr>opt_maxLength = None, opt_percentage = Some (Finite (1 / 2))\<rparr> =
      Inr (Crypto [''BTC'', ''ETH''] (Finite 3))"
    by (simp add: eval_provider product_exact)
  have m: "num_mul (Finite (real (length [''BTC'', ''ETH'', ''LTC'', ''XRP'', ''ADA''])))
      (Finite (1 / 2)) = Finite (5 / 2)"
    by (simp add: product_exact)
  from percentage_prefix [OF h, of "[''BTC'', ''ETH'', ''LTC'', ''XRP'', ''ADA'']"] d
  have "getValidCodes (Crypto [''BTC'', ''ETH''] (Finite 3)) =
     take (nat \<lfloor>5 / 2 :: real\<rfloor>) [''BTC'', ''ETH'', ''LTC'', ''XRP'', ''ADA'']"
    unfolding c m by (simp add: eval_provider product_exact)
  with h d c m show ?thesis by blast
qed

text \<open>
  With a repeated code the count is taken from the number of distinct codes, not from the
  size of the source list: of the four entries BTC, ETH, ETH, ETH, half is one code, not
  the first two entries.
\<close>

theorem percentage_prefix_counterexample:
  "CryptocurrencyProvider [''BTC'', ''ETH'', ''ETH'', ''ETH'']
     \<lparr>opt_maxLength = None, opt_percentage = Some (Finite (1 / 2))\<rparr> =
     Inr (Crypto [''BTC''] (Finite 3)) \<and>
   getValidCodes (Crypto [''BTC''] (Finite 3)) = [''BTC''] \<and>
   num_mul (Finite (real (length [''BTC'', ''ETH'', ''ETH'', ''ETH'']))) (Finite (1 / 2)) =
     Finite 2 \<and>
   take (nat \<lfloor>2 :: real\<rfloor>) [''BTC'', ''ETH'', ''ETH'', ''ETH''] = [''BTC'', ''ETH'']"
  by (simp add: eval_provider product_exact)

text \<open>
  C5, as the code has it. An empty resulting code set is not an error. A percentage \<open>P\<close>
  in \<open>(0, 1]\<close> for which \<open>floor(n * P)\<close> is 0, for \<open>n\<close> distinct source codes and the
  binary64 product, constructs a provider with no codes and \<open>getMaxLength() = -Infinity\<close>;
  and every constructed \<open>CryptocurrencyProvider\<close> whose code set is empty has
  \<open>getMaxLength() = -Infinity\<close> and rejects every input at validation.
\<close>

theorem empty_set_constructs:
  "(0 < P \<and> P \<le> 1 \<and>
    Math_floor (num_mul (Finite (real (card (set syms)))) (Finite P)) = Finite 0 \<longrightarrow>
      CryptocurrencyProvider syms \<lparr>opt_maxLength = None, opt_percentage = Some (Finite P)\<rparr> =
        Inr (Crypto [] NegInfinity)) \<and>
   (CryptocurrencyProvider syms opts = Inr p \<and> getValidCodes p = [] \<longrightarrow>
      getMaxLength p = NegInfinity \<and>
      (\<forall>toUpperCase message s. \<exists>issues.
         safeParse (currencySchema toUpperCase p message) s = Inl issues))"
proof (intro conjI impI)
  assume a: "0 < P \<and> P \<le> 1 \<and>
    Math_floor (num_mul (Finite (real (card (set syms)))) (Finite P)) = Finite 0"
  then obtain y where y: "num_mul (len (Set_new syms)) (Finite P) = Finite y" "\<lfloor>y\<rfloor> = 0"
    by (cases "num_mul (Finite (real (card (set syms)))) (Finite P)")
      (simp_all add: len_def length_Set_new)
  show "CryptocurrencyProvider syms \<lparr>opt_maxLength = None, opt_percentage = Some (Finite P)\<rparr> =
        Inr (Crypto [] NegInfinity)"
    using a y Crypto_percentage [of P syms] by (simp add: maxCodeLength_Nil)
next
  assume a: "CryptocurrencyProvider syms opts = Inr p \<and> getValidCodes p = []"
  then show "getMaxLength p = NegInfinity"
    using Crypto_fields [of syms opts p] by (simp add: maxCodeLength_Nil)
next
  assume a: "CryptocurrencyProvider syms opts = Inr p \<and> getValidCodes p = []"
  then have "getMaxLength p = NegInfinity"
    using Crypto_fields [of syms opts p] by (simp add: maxCodeLength_Nil)
  then show "\<forall>toUpperCase message s. \<exists>issues.
      safeParse (currencySchema toUpperCase p message) s = Inl issues"
    by (simp add: safeParse_currencySchema Let_def len_def)
qed

theorem empty_set_constructs_witness:
  "(0::real) < 1 / 4 \<and> (1 / 4 :: real) \<le> 1 \<and>
   Math_floor (num_mul (Finite (real (card (set [''BTC'', ''ETH'', ''LTC''])))) (Finite (1 / 4))) =
     Finite 0 \<and>
   CryptocurrencyProvider [''BTC'', ''ETH'', ''LTC'']
     \<lparr>opt_maxLength = None, opt_percentage = Some (Finite (1 / 4))\<rparr> =
     Inr (Crypto [] NegInfinity) \<and>
   getValidCodes (Crypto [] NegInfinity :: char provider) = [] \<and>
   getMaxLength (Crypto [] NegInfinity :: char provider) = NegInfinity \<and>
   safeParse (currencySchema toUpperCaseLatin (Crypto [] NegInfinity) None) ''BTC'' =
     Inl [Issue too_big (exceedMessage NegInfinity),
          Issue custom (defaultMessage (Crypto [] NegInfinity :: char provider))]"
proof -
  have h: "(0::real) < 1 / 4 \<and> (1 / 4 :: real) \<le> 1 \<and>
      Math_floor (num_mul (Finite (real (card (set [''BTC'', ''ETH'', ''LTC''])))) (Finite (1 / 4))) =
        Finite 0"
    by (simp add: product_exact)
  have e: "getValidCodes (Crypto [] NegInfinity :: char provider) = []"
    by (simp add: eval_provider)
  from empty_set_constructs [of "1 / 4" "[''BTC'', ''ETH'', ''LTC'']"
      "\<lparr>opt_maxLength = None, opt_percentage = Some (Finite (1 / 4))\<rparr>" "Crypto [] NegInfinity"] h e
  have c: "CryptocurrencyProvider [''BTC'', ''ETH'', ''LTC'']
      \<lparr>opt_maxLength = None, opt_percentage = Some (Finite (1 / 4))\<rparr> =
      Inr (Crypto [] NegInfinity)"
    and m: "getMaxLength (Crypto [] NegInfinity :: char provider) = NegInfinity"
    by blast+
  have "safeParse (currencySchema toUpperCaseLatin (Crypto [] NegInfinity) None) ''BTC'' =
     Inl [Issue too_big (exceedMessage NegInfinity),
          Issue custom (defaultMessage (Crypto [] NegInfinity :: char provider))]"
    by (simp add: safeParse_currencySchema eval_provider messageOr_def)
  with h e c m show ?thesis by blast
qed

text \<open>Three source codes and a percentage of 0.25: a provider is returned, no error.\<close>

theorem empty_set_constructs_counterexample:
  "CryptocurrencyProvider [''BTC'', ''ETH'', ''LTC'']
     \<lparr>opt_maxLength = None, opt_percentage = Some (Finite (1 / 4))\<rparr> =
     Inr (Crypto [] NegInfinity) \<and>
   getValidCodes (Crypto [] NegInfinity :: char provider) = [] \<and>
   getMaxLength (Crypto [] NegInfinity :: char provider) = NegInfinity"
  by (simp add: eval_provider product_exact)

subsection \<open>Construction errors\<close>

text \<open>
  C6 asks for an error whenever the percentage given is not in \<open>(0, 1]\<close>. The percentage
  \<open>NaN\<close> is not in \<open>(0, 1]\<close>, yet both comparisons of the guard are false for it, and a
  provider with no codes is constructed instead of an error.
\<close>

theorem nan_percentage_constructs:
  "\<not> inUnitInterval NaN \<and>
   CryptocurrencyProvider [''BTC'', ''ETH'']
     \<lparr>opt_maxLength = None, opt_percentage = Some NaN\<rparr> = Inr (Crypto [] NegInfinity)"
  by (simp add: eval_provider inUnitInterval_def)

text \<open>
  For every other percentage the constructor raises an error exactly under the three
  configurations, and the composite constructor exactly for the empty list.
\<close>

lemma CryptocurrencyProvider_raises_iff:
  assumes "opt_percentage options \<noteq> Some NaN"
  shows "isl (CryptocurrencyProvider syms options) \<longleftrightarrow>
     (opt_maxLength options \<noteq> None \<and> opt_percentage options \<noteq> None) \<or>
     (case opt_maxLength options of Some l \<Rightarrow> \<not> positiveInteger l | None \<Rightarrow> False) \<or>
     (case opt_percentage options of Some P \<Rightarrow> \<not> inUnitInterval P | None \<Rightarrow> False)"
proof -
  have l: "num_le l (Finite 0) \<or> \<not> Number_isInteger l \<longleftrightarrow> \<not> positiveInteger l" for l
    by (cases l) (auto simp add: positiveInteger_def)
  have p: "num_le P (Finite 0) \<or> num_gt P (Finite 1) \<longleftrightarrow> \<not> inUnitInterval P" if "P \<noteq> NaN" for P
    using that by (cases P) (auto simp add: inUnitInterval_def num_gt_def)
  show ?thesis
    using assms
    by (cases "opt_maxLength options"; cases "opt_percentage options")
      (simp_all add: CryptocurrencyProvider_def Let_def l p)
qed

lemma MultiCurrencyProvider_raises_iff: "isl (MultiCurrencyProvider ps) \<longleftrightarrow> ps = []"
  by (simp add: MultiCurrencyProvider_def Let_def)

subsection \<open>Rejected inputs\<close>

text \<open>
  C7, as the code has it. For every input that is not empty, whose length is \<open><=\<close> the
  provider's max length (which no input is for a max length of \<open>NaN\<close>), and whose uppercased
  form is not in the provider's code set, validation fails with exactly one issue. Its
  message is the caller's message if one was given and is not the empty string, and
  otherwise the default message naming the provider.
\<close>

theorem invalid_code_message:
  assumes "s \<noteq> []" and "num_le (len s) (getMaxLength p)"
    and "\<not> Set_has (getValidCodes p) (toUpperCase s)"
  shows "safeParse (currencySchema toUpperCase p message) s =
     Inl [Issue custom
       (case message of
          Some m \<Rightarrow>
            if m \<noteq> [] then [Str m]
            else [Str (''Invalid currency code. Must be a valid currency code from ''
                       @ getName p @ ''.'')]
        | None \<Rightarrow>
            [Str (''Invalid currency code. Must be a valid currency code from ''
                  @ getName p @ ''.'')])]"
  using assms
  by (simp add: safeParse_currencySchema Let_def Set_has_def messageOr_def defaultMessage_def
      split: option.splits)

theorem invalid_code_message_witness:
  "''ABC'' \<noteq> [] \<and>
   num_le (len ''ABC'') (getMaxLength (FiatCurrencyProvider [''USD'', ''EUR''])) \<and>
   \<not> Set_has (getValidCodes (FiatCurrencyProvider [''USD'', ''EUR''])) (toUpperCaseLatin ''ABC'') \<and>
   safeParse (currencySchema toUpperCaseLatin (FiatCurrencyProvider [''USD'', ''EUR''])
       (Some ''Please enter a valid currency code'')) ''ABC'' =
     Inl [Issue custom [Str ''Please enter a valid currency code'']]"
proof -
  have h1: "''ABC'' \<noteq> []" by simp
  have h2: "num_le (len ''ABC'') (getMaxLength (FiatCurrencyProvider [''USD'', ''EUR'']))"
    by (simp add: eval_provider)
  have h3: "\<not> Set_has (getValidCodes (FiatCurrencyProvider [''USD'', ''EUR'']))
      (toUpperCaseLatin ''ABC'')"
    by (simp add: eval_provider eval_schema)
  from invalid_code_message [where toUpperCase = toUpperCaseLatin and s = "''ABC''"
      and p = "FiatCurrencyProvider [''USD'', ''EUR'']"
      and message = "Some ''Please enter a valid currency code''", OF h1 h2 h3]
  show ?thesis using h1 h2 h3 by simp
qed

text \<open>
  The empty string given as message is replaced by the default message. With a max length
  of \<open>NaN\<close> the length 3 does not exceed the max length, and yet the first issue is the one
  of the length bound.
\<close>

theorem invalid_code_message_counterexample:
  "safeParse (currencySchema toUpperCaseLatin (FiatCurrencyProvider [''USD'', ''EUR''])
       (Some '''')) ''ABC'' =
     Inl [Issue custom
       [Str ''Invalid currency code. Must be a valid currency code from Fiat Currency Provider.'']] \<and>
   \<not> num_gt (len ''EUR'') (getMaxLength (Custom [''USD''] NaN ''Custom Provider'')) \<and>
   safeParse (currencySchema toUpperCaseLatin (Custom [''USD''] NaN ''Custom Provider'') None)
       ''EUR'' =
     Inl [Issue too_big [Str ''Currency code cannot exceed '', Num NaN, Str '' characters''],
          Issue custom
       [Str ''Invalid currency code. Must be a valid currency code from Custom Provider.'']]"
  by (simp add: eval_provider eval_schema)

text \<open>
  C8. Validating the empty string fails and the first issue carries the message
  \<open>Currency code cannot be empty\<close>, for every provider and message option. Validating a
  string longer than the provider's max length fails with an issue whose message names
  that bound, whatever the string holds; the first issue is never the one of the membership
  check, and for a string that is not empty it is the one of the length bound.
\<close>

theorem length_gates:
  "(case safeParse (currencySchema toUpperCase p message) [] of
      Inr out \<Rightarrow> False
    | Inl issues \<Rightarrow> hd issues = Issue too_small [Str ''Currency code cannot be empty'']) \<and>
   (num_gt (len s) (getMaxLength p) \<longrightarrow>
     (case safeParse (currencySchema toUpperCase p message) s of
        Inr out \<Rightarrow> False
      | Inl issues \<Rightarrow>
          Issue too_big [Str ''Currency code cannot exceed '', Num (getMaxLength p),
                         Str '' characters''] \<in> set issues \<and>
          code_of (hd issues) \<noteq> custom \<and>
          (s \<noteq> [] \<longrightarrow>
             hd issues = Issue too_big [Str ''Currency code cannot exceed '',
                                        Num (getMaxLength p), Str '' characters''])))"
  by (auto simp add: safeParse_currencySchema emptyMessage_def exceedMessage_def Let_def
      dest: num_gt_not_le)

theorem length_gates_witness:
  "num_gt (len ''AAAA'') (getMaxLength (FiatCurrencyProvider [''USD'', ''EUR''])) \<and>
   safeParse (currencySchema toUpperCaseLatin (FiatCurrencyProvider [''USD'', ''EUR'']) None)
       ''AAAA'' =
     Inl [Issue too_big [Str ''Currency code cannot exceed '', Num (Finite 3), Str '' characters''],
          Issue custom (defaultMessage (FiatCurrencyProvider [''USD'', ''EUR'']))] \<and>
   ''AAAA'' \<noteq> [] \<and>
   code_of (hd [Issue too_big [Str ''Currency code cannot exceed '', Num (Finite 3), Str '' characters''],
          Issue custom (defaultMessage (FiatCurrencyProvider [''USD'', ''EUR'']))]) = too_big"
proof -
  have h: "num_gt (len ''AAAA'') (getMaxLength (FiatCurrencyProvider [''USD'', ''EUR'']))"
    by (simp add: eval_provider)
  have r: "safeParse (currencySchema toUpperCaseLatin (FiatCurrencyProvider [''USD'', ''EUR''])
       None) ''AAAA'' =
     Inl [Issue too_big [Str ''Currency code cannot exceed '', Num (Finite 3), Str '' characters''],
          Issue custom (defaultMessage (FiatCurrencyProvider [''USD'', ''EUR'']))]"
    by (simp add: safeParse_currencySchema eval_provider toUpperCaseLatin_def toUpperUnit_def
        lowerLetters_def upperLetters_def exceedMessage_def messageOr_def)
  from length_gates [where toUpperCase = toUpperCaseLatin and s = "''AAAA''"
      and p = "FiatCurrencyProvider [''USD'', ''EUR'']" and message = None] h
  have "code_of (hd [Issue too_big [Str ''Currency code cannot exceed '', Num (Finite 3), Str '' characters''],
          Issue custom (defaultMessage (FiatCurrencyProvider [''USD'', ''EUR'']))]) = too_big"
    unfolding r by (simp add: eval_provider)
  with h r show ?thesis by blast
qed

text \<open>
  C9. Whenever validation succeeds, the string returned is in the provider's
  \<open>getValidCodes()\<close> and is the uppercased input. Uppercasing an uppercased string changes
  nothing, so the string returned is its own uppercasing, and a member of the code set
  that is not its own uppercasing is the result of no validation.
\<close>

theorem output_is_member:
  assumes "safeParse (currencySchema toUpperCase p message) s = Inr out"
  shows "Set_has (getValidCodes p) out \<and> out = toUpperCase s \<and>
         ((\<forall>t. toUpperCase (toUpperCase t) = toUpperCase t) \<longrightarrow>
            toUpperCase out = out \<and>
            (\<forall>m. Set_has (getValidCodes p) m \<and> toUpperCase m \<noteq> m \<longrightarrow>
                 (\<forall>t. safeParse (currencySchema toUpperCase p message) t \<noteq> Inr m)))"
proof -
  have *: "safeParse (currencySchema toUpperCase p message) t = Inr r \<Longrightarrow>
        r = toUpperCase t \<and> r \<in> set (getValidCodes p)" for t r
    by (auto simp add: safeParse_currencySchema Let_def split: if_splits)
  from * [OF assms] have o: "out = toUpperCase s" "out \<in> set (getValidCodes p)" by auto
  have "safeParse (currencySchema toUpperCase p message) t \<noteq> Inr m"
    if idem: "\<forall>t. toUpperCase (toUpperCase t) = toUpperCase t" and "toUpperCase m \<noteq> m" for m t
  proof
    assume "safeParse (currencySchema toUpperCase p message) t = Inr m"
    from * [OF this] have "m = toUpperCase t" by simp
    then have "toUpperCase m = m" using idem by simp
    with that show False by simp
  qed
  with o show ?thesis by (auto simp add: Set_has_def)
qed

theorem output_is_member_witness:
  "safeParse (currencySchema toUpperCaseLatin
       (FiatCurrencyProvider [''CAF'' @ [CHR 0xC9], ''caf'' @ [CHR 0xE9]]) None)
     (''caf'' @ [CHR 0xE9]) = Inr (''CAF'' @ [CHR 0xC9]) \<and>
   Set_has (getValidCodes (FiatCurrencyProvider [''CAF'' @ [CHR 0xC9], ''caf'' @ [CHR 0xE9]]))
     (''CAF'' @ [CHR 0xC9]) \<and>
   toUpperCaseLatin (''CAF'' @ [CHR 0xC9]) = ''CAF'' @ [CHR 0xC9] \<and>
   Set_has (getValidCodes (FiatCurrencyProvider [''CAF'' @ [CHR 0xC9], ''caf'' @ [CHR 0xE9]]))
     (''caf'' @ [CHR 0xE9]) \<and>
   toUpperCaseLatin (''caf'' @ [CHR 0xE9]) \<noteq> ''caf'' @ [CHR 0xE9] \<and>
   safeParse (currencySchema toUpperCaseLatin
       (FiatCurrencyProvider [''CAF'' @ [CHR 0xC9], ''caf'' @ [CHR 0xE9]]) None)
     (''caf'' @ [CHR 0xE9]) \<noteq> Inr (''caf'' @ [CHR 0xE9])"
proof -
  let ?p = "FiatCurrencyProvider [''CAF'' @ [CHR 0xC9], ''caf'' @ [CHR 0xE9]]"
  have h: "safeParse (currencySchema toUpperCaseLatin ?p None) (''caf'' @ [CHR 0xE9]) =
      Inr (''CAF'' @ [CHR 0xC9])"
    by (simp add: eval_provider eval_schema)
  have idem: "\<forall>t. toUpperCaseLatin (toUpperCaseLatin t) = toUpperCaseLatin t"
    by (simp add: toUpperCaseLatin_idem)
  have low: "Set_has (getValidCodes ?p) (''caf'' @ [CHR 0xE9])"
    "toUpperCaseLatin (''caf'' @ [CHR 0xE9]) \<noteq> ''caf'' @ [CHR 0xE9]"
    by (simp_all add: eval_provider eval_schema)
  from output_is_member [OF h] h idem low show ?thesis by blast
qed

end
